theory Spec2Isabelle
  imports Main "HOL-Library.Word"
begin

unbundle bit_operations_syntax

section \<open>The DDP-24 emulator: data model (include/ddp24.h)\<close>

text \<open>
  \<^verbatim>\<open>typedef uint32_t word_t\<close>: every register and every memory cell is a 32-bit host
  word that the code masks down to 24 (or 15) bits by hand.  The host word is kept, so
  that the masking is something the theorems show and not something the types give.
\<close>

type_synonym word_t = "32 word"

definition WORD_MASK :: word_t where "WORD_MASK = 0x00FFFFFF"
definition SIGN_BIT :: word_t where "SIGN_BIT = 0x00800000"
definition MAGNITUDE_MASK :: word_t where "MAGNITUDE_MASK = 0x007FFFFF"

definition OP_SHIFT :: nat where "OP_SHIFT = 18"
definition OP_MASK :: word_t where "OP_MASK = 0x3F"
definition INDIRECT_BIT :: word_t where "INDIRECT_BIT = push_bit 17 1"
definition INDEX_SHIFT :: nat where "INDEX_SHIFT = 15"
definition INDEX_MASK :: word_t where "INDEX_MASK = 0x03"
definition ADDR_MASK :: word_t where "ADDR_MASK = 0x7FFF"
definition MEM_SIZE :: word_t where "MEM_SIZE = 32768"

text \<open>
  The opcodes of \<^verbatim>\<open>opcode_t\<close>.  The header writes them in octal; the decimal value is
  given here with the octal one beside it.  The switch of \<^verbatim>\<open>ddp24_step\<close> compares a
  \<^verbatim>\<open>uint8_t\<close> against them.
\<close>

definition OP_HLT :: "8 word" where "OP_HLT = 0"   \<comment> \<open>000\<close>
definition OP_XEC :: "8 word" where "OP_XEC = 2"   \<comment> \<open>002\<close>
definition OP_STB :: "8 word" where "OP_STB = 3"   \<comment> \<open>003\<close>
definition OP_STC :: "8 word" where "OP_STC = 4"   \<comment> \<open>004\<close>
definition OP_STA :: "8 word" where "OP_STA = 5"   \<comment> \<open>005\<close>
definition OP_SAA :: "8 word" where "OP_SAA = 6"   \<comment> \<open>006\<close>
definition OP_INA :: "8 word" where "OP_INA = 7"   \<comment> \<open>007\<close>
definition OP_ADD :: "8 word" where "OP_ADD = 8"   \<comment> \<open>010\<close>
definition OP_SUB :: "8 word" where "OP_SUB = 9"   \<comment> \<open>011\<close>
definition OP_SKG :: "8 word" where "OP_SKG = 10"  \<comment> \<open>012\<close>
definition OP_SKN :: "8 word" where "OP_SKN = 11"  \<comment> \<open>013\<close>
definition OP_ANA :: "8 word" where "OP_ANA = 13"  \<comment> \<open>015\<close>
definition OP_ORA :: "8 word" where "OP_ORA = 14"  \<comment> \<open>016\<close>
definition OP_ERA :: "8 word" where "OP_ERA = 15"  \<comment> \<open>017\<close>
definition OP_ADM :: "8 word" where "OP_ADM = 16"  \<comment> \<open>020\<close>
definition OP_SBM :: "8 word" where "OP_SBM = 17"  \<comment> \<open>021\<close>
definition OP_LDB :: "8 word" where "OP_LDB = 19"  \<comment> \<open>023\<close>
definition OP_LDA :: "8 word" where "OP_LDA = 20"  \<comment> \<open>024\<close>
definition OP_EAB :: "8 word" where "OP_EAB = 21"  \<comment> \<open>025\<close>
definition OP_JSL :: "8 word" where "OP_JSL = 23"  \<comment> \<open>027\<close>
definition OP_SMP :: "8 word" where "OP_SMP = 24"  \<comment> \<open>030\<close>
definition OP_FMB :: "8 word" where "OP_FMB = 26"  \<comment> \<open>032\<close>
definition OP_DMB :: "8 word" where "OP_DMB = 27"  \<comment> \<open>033\<close>
definition OP_MPY :: "8 word" where "OP_MPY = 28"  \<comment> \<open>034\<close>
definition OP_DIV :: "8 word" where "OP_DIV = 29"  \<comment> \<open>035\<close>
definition OP_BCD :: "8 word" where "OP_BCD = 30"  \<comment> \<open>036\<close>
definition OP_DCB :: "8 word" where "OP_DCB = 31"  \<comment> \<open>037\<close>
definition OP_ARS :: "8 word" where "OP_ARS = 32"  \<comment> \<open>040\<close>
definition OP_ALS :: "8 word" where "OP_ALS = 33"  \<comment> \<open>041\<close>
definition OP_LRR :: "8 word" where "OP_LRR = 34"  \<comment> \<open>042\<close>
definition OP_LLR :: "8 word" where "OP_LLR = 35"  \<comment> \<open>043\<close>
definition OP_LRS :: "8 word" where "OP_LRS = 36"  \<comment> \<open>044\<close>
definition OP_LLS :: "8 word" where "OP_LLS = 37"  \<comment> \<open>045\<close>
definition OP_NRM :: "8 word" where "OP_NRM = 38"  \<comment> \<open>046\<close>
definition OP_OCP :: "8 word" where "OP_OCP = 40"  \<comment> \<open>050\<close>
definition OP_ITC :: "8 word" where "OP_ITC = 41"  \<comment> \<open>051\<close>
definition OP_ITA :: "8 word" where "OP_ITA = 42"  \<comment> \<open>052\<close>
definition OP_OTA :: "8 word" where "OP_OTA = 43"  \<comment> \<open>053\<close>
definition OP_SMX :: "8 word" where "OP_SMX = 44"  \<comment> \<open>054\<close>
definition OP_TAB :: "8 word" where "OP_TAB = 45"  \<comment> \<open>055\<close>
definition OP_LDX :: "8 word" where "OP_LDX = 46"  \<comment> \<open>056\<close>
definition OP_IAB :: "8 word" where "OP_IAB = 47"  \<comment> \<open>057\<close>
definition OP_SKS :: "8 word" where "OP_SKS = 49"  \<comment> \<open>061\<close>
definition OP_RND :: "8 word" where "OP_RND = 50"  \<comment> \<open>062\<close>
definition OP_TAX :: "8 word" where "OP_TAX = 51"  \<comment> \<open>063\<close>
definition OP_SCR :: "8 word" where "OP_SCR = 52"  \<comment> \<open>064\<close>
definition OP_SCL :: "8 word" where "OP_SCL = 53"  \<comment> \<open>065\<close>
definition OP_SIX :: "8 word" where "OP_SIX = 54"  \<comment> \<open>066\<close>
definition OP_RIX :: "8 word" where "OP_RIX = 55"  \<comment> \<open>067\<close>
definition OP_JPL :: "8 word" where "OP_JPL = 56"  \<comment> \<open>070\<close>
definition OP_JZE :: "8 word" where "OP_JZE = 57"  \<comment> \<open>071\<close>
definition OP_JMI :: "8 word" where "OP_JMI = 58"  \<comment> \<open>072\<close>
definition OP_JNZ :: "8 word" where "OP_JNZ = 59"  \<comment> \<open>073\<close>
definition OP_JMP :: "8 word" where "OP_JMP = 60"  \<comment> \<open>074\<close>
definition OP_JXI :: "8 word" where "OP_JXI = 61"  \<comment> \<open>075\<close>
definition OP_NOP :: "8 word" where "OP_NOP = 63"  \<comment> \<open>077\<close>

text \<open>
  \<^verbatim>\<open>ddp24_t\<close>.  The two arrays \<^verbatim>\<open>X[4]\<close> and \<^verbatim>\<open>memory[MEM_SIZE]\<close> are functions from the
  index; the code reaches \<^verbatim>\<open>memory\<close> only at \<^verbatim>\<open>addr & (MEM_SIZE - 1)\<close> and \<^verbatim>\<open>X\<close> only at a
  two-bit index, so every access is in range (lemmas \<open>mem_index_in_range\<close> and
  \<open>decode_index_in_range\<close> below).
\<close>

record ddp24_t =
  A :: word_t
  B :: word_t
  X :: "nat \<Rightarrow> word_t"
  PC :: word_t
  memory :: "nat \<Rightarrow> word_t"
  overflow :: bool
  halted :: bool
  interrupt_enabled :: bool
  cycles :: "64 word"

subsection \<open>Instruction decode helpers (include/ddp24.h)\<close>

definition decode_opcode :: "word_t \<Rightarrow> 8 word" where
  "decode_opcode instr = ucast (drop_bit OP_SHIFT instr AND OP_MASK)"

definition decode_indirect :: "word_t \<Rightarrow> bool" where
  "decode_indirect instr \<longleftrightarrow> instr AND INDIRECT_BIT \<noteq> 0"

definition decode_index :: "word_t \<Rightarrow> 8 word" where
  "decode_index instr = ucast (drop_bit INDEX_SHIFT instr AND INDEX_MASK)"

definition decode_address :: "word_t \<Rightarrow> word_t" where
  "decode_address instr = instr AND ADDR_MASK"

section \<open>The processor (src/ddp24.c)\<close>

subsection \<open>Sign-magnitude helpers\<close>

text \<open>
  \<^verbatim>\<open>to_signed\<close> returns an \<^verbatim>\<open>int32_t\<close> of magnitude at most \<open>2^23 - 1\<close>, and the only
  values \<^verbatim>\<open>from_signed\<close> receives are a sum or a difference of two of them, so no
  host arithmetic on \<^verbatim>\<open>int32_t\<close> overflows and \<open>int\<close> models it exactly (lemma
  \<open>to_signed_range\<close>).
\<close>

definition to_signed :: "word_t \<Rightarrow> int" where
  "to_signed w0 =
     (let w = w0 AND WORD_MASK in
      if w AND SIGN_BIT \<noteq> 0 then - uint (w AND MAGNITUDE_MASK)
      else uint (w AND MAGNITUDE_MASK))"

definition from_signed :: "int \<Rightarrow> word_t" where
  "from_signed v =
     (if v < 0 then SIGN_BIT OR (word_of_int (- v) AND MAGNITUDE_MASK)
      else word_of_int v AND MAGNITUDE_MASK)"

subsection \<open>Construction, reset, memory access\<close>

definition ddp24_init :: ddp24_t where
  "ddp24_init =
     \<lparr>A = 0, B = 0, X = (\<lambda>_. 0), PC = 0, memory = (\<lambda>_. 0),
      overflow = False, halted = False, interrupt_enabled = False, cycles = 0\<rparr>"

definition ddp24_reset :: "ddp24_t \<Rightarrow> ddp24_t" where
  "ddp24_reset cpu =
     cpu\<lparr>A := 0, B := 0, X := (X cpu)(0 := 0, 1 := 0, 2 := 0, 3 := 0), PC := 0,
         halted := False, overflow := False, interrupt_enabled := False, cycles := 0\<rparr>"

definition ddp24_read :: "ddp24_t \<Rightarrow> word_t \<Rightarrow> word_t" where
  "ddp24_read cpu addr = memory cpu (unat (addr AND (MEM_SIZE - 1))) AND WORD_MASK"

definition ddp24_write :: "ddp24_t \<Rightarrow> word_t \<Rightarrow> word_t \<Rightarrow> ddp24_t" where
  "ddp24_write cpu addr v =
     cpu\<lparr>memory := (memory cpu)(unat (addr AND (MEM_SIZE - 1)) := v AND WORD_MASK)\<rparr>"

subsection \<open>Effective address\<close>

definition effective_address :: "ddp24_t \<Rightarrow> word_t \<Rightarrow> word_t" where
  "effective_address cpu instr =
     (let addr = decode_address instr;
          idx = decode_index instr;
          addr = (if idx > 0 then (addr + X cpu (unat idx)) AND ADDR_MASK else addr);
          addr = (if decode_indirect instr then ddp24_read cpu addr AND ADDR_MASK else addr)
      in addr)"

subsection \<open>One instruction\<close>

text \<open>
  \<^verbatim>\<open>ddp24_step\<close> is recursive through its \<^verbatim>\<open>OP_XEC\<close> arm only.  \<open>dispatch\<close> below is the
  switch of \<^verbatim>\<open>ddp24_step\<close> without that arm: it takes the decoded opcode, the fetched
  word, the effective address and the processor after the fetch increment, and gives the
  value of the local \<^verbatim>\<open>cycles\<close> and the processor at the end of the switch.  The arms
  have distinct labels, so the order of the tests is immaterial; it follows the source.
  The \<^verbatim>\<open>default\<close> arm prints a diagnostic on \<^verbatim>\<open>stderr\<close>, which is not part of the state.

  In the multiply and divide arms the code computes in \<^verbatim>\<open>uint64_t\<close> and narrows to
  \<^verbatim>\<open>uint32_t\<close>; the model does the same with \<open>64 word\<close> and \<open>ucast\<close>.  The divide arm
  divides only after it has found the divisor magnitude strictly above \<open>a_mag \<ge> 0\<close>,
  hence non-zero.
\<close>

definition op_mpy :: "word_t \<Rightarrow> ddp24_t \<Rightarrow> ddp24_t" where
  "op_mpy ea cpu =
     (let operand = ddp24_read cpu ea;
          b_mag = B cpu AND MAGNITUDE_MASK;
          y_mag = operand AND MAGNITUDE_MASK;
          b_neg = (B cpu AND SIGN_BIT \<noteq> 0);
          y_neg = (operand AND SIGN_BIT \<noteq> 0);
          result_neg = (b_neg \<noteq> y_neg);
          product = (ucast b_mag :: 64 word) * (ucast y_mag :: 64 word);
          a_mag = (ucast (drop_bit 23 product AND ucast MAGNITUDE_MASK) :: word_t);
          new_b_mag = (ucast (product AND ucast MAGNITUDE_MASK) :: word_t)
      in cpu\<lparr>A := (if result_neg \<and> (a_mag \<noteq> 0 \<or> new_b_mag \<noteq> 0)
                    then SIGN_BIT OR a_mag else a_mag),
             B := (if result_neg \<and> (a_mag \<noteq> 0 \<or> new_b_mag \<noteq> 0)
                    then SIGN_BIT OR new_b_mag else new_b_mag)\<rparr>)"

definition op_div :: "word_t \<Rightarrow> ddp24_t \<Rightarrow> ddp24_t" where
  "op_div ea cpu =
     (let operand = ddp24_read cpu ea;
          divisor_mag = operand AND MAGNITUDE_MASK;
          a_mag = A cpu AND MAGNITUDE_MASK;
          dividend_neg = (A cpu AND SIGN_BIT \<noteq> 0);
          divisor_neg = (operand AND SIGN_BIT \<noteq> 0)
      in if a_mag \<ge> divisor_mag then cpu\<lparr>overflow := True\<rparr>
         else
           let dividend = push_bit 23 (ucast (A cpu AND MAGNITUDE_MASK) :: 64 word)
                            OR ucast (B cpu AND MAGNITUDE_MASK);
               quotient = (ucast (dividend div ucast divisor_mag) :: word_t);
               remainder = (ucast (dividend mod ucast divisor_mag) :: word_t);
               quotient_neg = (dividend_neg \<noteq> divisor_neg)
           in cpu\<lparr>B := (if quotient_neg \<and> quotient \<noteq> 0
                         then SIGN_BIT OR quotient else quotient),
                  A := (if dividend_neg \<and> remainder \<noteq> 0
                         then SIGN_BIT OR remainder else remainder)\<rparr>)"

definition dispatch :: "8 word \<Rightarrow> word_t \<Rightarrow> word_t \<Rightarrow> ddp24_t \<Rightarrow> int \<times> ddp24_t" where
  "dispatch op instr ea cpu =
    (if op = OP_HLT then
       (5, cpu\<lparr>halted := True, PC := (PC cpu - 1) AND ADDR_MASK\<rparr>)
     else if op = OP_NOP then (5, cpu)
     else if op = OP_LDA then (10, cpu\<lparr>A := ddp24_read cpu ea\<rparr>)
     else if op = OP_LDB then (10, cpu\<lparr>B := ddp24_read cpu ea\<rparr>)
     else if op = OP_STA then (10, ddp24_write cpu ea (A cpu))
     else if op = OP_STB then (10, ddp24_write cpu ea (B cpu))
     else if op = OP_ADD then
       (let result = to_signed (A cpu) + to_signed (ddp24_read cpu ea)
        in (10, cpu\<lparr>overflow := (if result > 0x7FFFFF \<or> result < - 0x7FFFFF
                                   then True else overflow cpu),
                     A := from_signed result\<rparr>))
     else if op = OP_SUB then
       (let result = to_signed (A cpu) - to_signed (ddp24_read cpu ea)
        in (10, cpu\<lparr>overflow := (if result > 0x7FFFFF \<or> result < - 0x7FFFFF
                                   then True else overflow cpu),
                     A := from_signed result\<rparr>))
     else if op = OP_MPY then (28, op_mpy ea cpu)
     else if op = OP_DIV then (44, op_div ea cpu)
     else if op = OP_ANA then (10, cpu\<lparr>A := (A cpu AND ddp24_read cpu ea) AND WORD_MASK\<rparr>)
     else if op = OP_ORA then (10, cpu\<lparr>A := (A cpu OR ddp24_read cpu ea) AND WORD_MASK\<rparr>)
     else if op = OP_ERA then (10, cpu\<lparr>A := (A cpu XOR ddp24_read cpu ea) AND WORD_MASK\<rparr>)
     else if op = OP_JMP then (5, cpu\<lparr>PC := ea\<rparr>)
     else if op = OP_JPL then
       (6, if A cpu AND SIGN_BIT = 0 \<and> A cpu AND MAGNITUDE_MASK \<noteq> 0
           then cpu\<lparr>PC := ea\<rparr> else cpu)
     else if op = OP_JMI then
       (6, if A cpu AND SIGN_BIT \<noteq> 0 then cpu\<lparr>PC := ea\<rparr> else cpu)
     else if op = OP_JZE then
       (6, if A cpu AND MAGNITUDE_MASK = 0 then cpu\<lparr>PC := ea\<rparr> else cpu)
     else if op = OP_JNZ then
       (6, if A cpu AND MAGNITUDE_MASK \<noteq> 0 then cpu\<lparr>PC := ea\<rparr> else cpu)
     else if op = OP_JSL then
       (10, (ddp24_write cpu ea (PC cpu))\<lparr>PC := (ea + 1) AND ADDR_MASK\<rparr>)
     else if op = OP_SKG then
       (10, if to_signed (A cpu) > to_signed (ddp24_read cpu ea)
            then cpu\<lparr>PC := (PC cpu + 1) AND ADDR_MASK\<rparr> else cpu)
     else if op = OP_SKN then
       (10, if A cpu \<noteq> ddp24_read cpu ea
            then cpu\<lparr>PC := (PC cpu + 1) AND ADDR_MASK\<rparr> else cpu)
     else if op = OP_TAB then (5, cpu\<lparr>B := A cpu\<rparr>)
     else if op = OP_IAB then (10, cpu\<lparr>A := B cpu, B := A cpu\<rparr>)
     else if op = OP_LDX then
       (let idx = decode_index instr
        in (5, if idx > 0
               then cpu\<lparr>X := (X cpu)(unat idx := ddp24_read cpu ea AND ADDR_MASK)\<rparr>
               else cpu))
     else if op = OP_SIX then
       (10, ddp24_write cpu ea (X cpu (unat (decode_index instr))))
     else if op = OP_ARS then
       (5 + uint (ea AND 0x1F),
        cpu\<lparr>A := (A cpu AND SIGN_BIT)
                    OR drop_bit (unat (ea AND 0x1F)) (A cpu AND MAGNITUDE_MASK)\<rparr>)
     else if op = OP_ALS then
       (5 + uint (ea AND 0x1F),
        cpu\<lparr>A := (A cpu AND SIGN_BIT)
                    OR (push_bit (unat (ea AND 0x1F)) (A cpu AND MAGNITUDE_MASK)
                          AND MAGNITUDE_MASK)\<rparr>)
     else (5, cpu\<lparr>halted := True\<rparr>))"

text \<open>
  \<^verbatim>\<open>ddp24_step\<close>.  The C function calls itself in the \<^verbatim>\<open>OP_XEC\<close> arm with nothing that
  limits the depth, so it need not return: the model is a partial function, and \<open>None\<close>
  is a call that never returns.  \<open>Some (c, cpu')\<close> is the returned \<^verbatim>\<open>int\<close> and the
  processor the call leaves behind.  The returned \<^verbatim>\<open>int\<close> grows by 5 for each nested
  call on top of at most 44 for the last one; on the way down only \<^verbatim>\<open>PC\<close> changes, so a
  chain that returns visits each of the 32768 addresses at most once and the sum stays far
  below the range of the host \<^verbatim>\<open>int\<close>.  It is modelled by \<open>int\<close>.  The conversion of
  \<^verbatim>\<open>cpu->cycles += cycles\<close> to \<^verbatim>\<open>uint64_t\<close> is \<open>word_of_int\<close>.
\<close>

partial_function (option) ddp24_step :: "ddp24_t \<Rightarrow> (int \<times> ddp24_t) option" where
  "ddp24_step cpu =
    (if halted cpu then Some (0, cpu)
     else
       let instr = ddp24_read cpu (PC cpu);
           cpu1 = cpu\<lparr>PC := (PC cpu + 1) AND ADDR_MASK\<rparr>;
           op = decode_opcode instr;
           ea = effective_address cpu1 instr
       in Option.bind
            (if op = OP_XEC then
               Option.bind (ddp24_step (cpu1\<lparr>PC := (ea + 1) AND ADDR_MASK\<rparr>))
                 (\<lambda>(c, cpu2). Some (5 + c, cpu2))
             else Some (dispatch op instr ea cpu1))
            (\<lambda>(cyc, cpu3). Some (cyc, cpu3\<lparr>cycles := cycles cpu3 + word_of_int cyc\<rparr>)))"

subsection \<open>Vocabulary of the properties\<close>

text \<open>
  The opcodes that have an arm of their own in the switch of \<^verbatim>\<open>ddp24_step\<close>, read off the
  \<^verbatim>\<open>case\<close> labels.  Every other value of the six-bit field reaches the \<^verbatim>\<open>default\<close> arm.
\<close>

definition implemented_opcodes :: "8 word set" where
  "implemented_opcodes =
     {OP_HLT, OP_NOP, OP_LDA, OP_LDB, OP_STA, OP_STB, OP_ADD, OP_SUB, OP_MPY, OP_DIV,
      OP_ANA, OP_ORA, OP_ERA, OP_JMP, OP_JPL, OP_JMI, OP_JZE, OP_JNZ, OP_JSL, OP_SKG,
      OP_SKN, OP_TAB, OP_IAB, OP_LDX, OP_SIX, OP_ARS, OP_ALS, OP_XEC}"

text \<open>A host word fits in \<open>n\<close> bits when its unsigned value is below \<open>2^n\<close>.\<close>

definition fits :: "nat \<Rightarrow> word_t \<Rightarrow> bool" where
  "fits n w \<longleftrightarrow> unat w < 2 ^ n"

text \<open>
  The machine widths: the accumulators and the \<^verbatim>\<open>MEM_SIZE\<close> memory cells in 24 bits, the
  program counter and the three writable index registers in 15 bits, \<^verbatim>\<open>X[0]\<close> zero.
\<close>

definition width_invariant :: "ddp24_t \<Rightarrow> bool" where
  "width_invariant cpu \<longleftrightarrow>
     fits 24 (A cpu) \<and> fits 24 (B cpu) \<and> (\<forall>i < unat MEM_SIZE. fits 24 (memory cpu i))
     \<and> fits 15 (PC cpu) \<and> fits 15 (X cpu 1) \<and> fits 15 (X cpu 2) \<and> fits 15 (X cpu 3)
     \<and> X cpu 0 = 0"

text \<open>
  The processors a driver can arrive at from \<^verbatim>\<open>ddp24_init\<close> through the interface of the
  core: reset, write, and every step that returns.  (\<^verbatim>\<open>ddp24_read\<close> leaves the processor
  as it is.)
\<close>

inductive reachable :: "ddp24_t \<Rightarrow> bool" where
  reach_init: "reachable ddp24_init"
| reach_reset: "reachable cpu \<Longrightarrow> reachable (ddp24_reset cpu)"
| reach_write: "reachable cpu \<Longrightarrow> reachable (ddp24_write cpu addr v)"
| reach_step: "reachable cpu \<Longrightarrow> ddp24_step cpu = Some (c, cpu') \<Longrightarrow> reachable cpu'"

text \<open>
  The processor on which the \<^verbatim>\<open>OP_XEC\<close> arm calls \<^verbatim>\<open>ddp24_step\<close> again, as a function of
  the processor the outer call was entered with: the source has fetched \<^verbatim>\<open>instr\<close>, computed
  \<^verbatim>\<open>ea\<close> and assigned \<^verbatim>\<open>cpu->PC = (ea + 1) & ADDR_MASK\<close>; nothing else has changed yet
  (lemma \<open>step_xec_nested\<close> below relates it to \<open>ddp24_step\<close>).
\<close>

definition xec_nested :: "ddp24_t \<Rightarrow> ddp24_t" where
  "xec_nested cpu =
     cpu\<lparr>PC := (effective_address cpu (ddp24_read cpu (PC cpu)) + 1) AND ADDR_MASK\<rparr>"

text \<open>
  The chain of nested calls that \<^verbatim>\<open>ddp24_step\<close> goes down: a call on a halted processor
  or on a word that is not XEC returns without calling itself, a call on an XEC word
  calls itself on \<open>xec_nested\<close>.  \<open>xec_chain_ends n cpu\<close>: going down from \<open>cpu\<close>, one of
  the first \<open>n + 1\<close> calls is of the first kind.
\<close>

fun xec_chain_ends :: "nat \<Rightarrow> ddp24_t \<Rightarrow> bool" where
  "xec_chain_ends 0 cpu \<longleftrightarrow>
     halted cpu \<or> decode_opcode (ddp24_read cpu (PC cpu)) \<noteq> OP_XEC"
| "xec_chain_ends (Suc n) cpu \<longleftrightarrow>
     halted cpu \<or> decode_opcode (ddp24_read cpu (PC cpu)) \<noteq> OP_XEC
     \<or> xec_chain_ends n (xec_nested cpu)"

subsection \<open>Memory images used below\<close>

text \<open>
  Instruction words are \<^verbatim>\<open>(opcode << 18) | address\<close>, as the self-test of \<^verbatim>\<open>main.c\<close>
  builds them.
  \<^item> \<open>xec_loop\<close>: \<^verbatim>\<open>[0] = XEC 0x7FFF; [0x7FFF] = XEC 0x7FFF\<close>.  The word at the effective
    address and the word after it (address 0, modulo \<open>2^15\<close>) are both this XEC.
  \<^item> \<open>xec_chain_example\<close>: \<^verbatim>\<open>[0] = XEC 0x10; [0x10] = [0x11] = XEC 0x20; [0x20] = [0x21] = NOP\<close>.
    At each effective address the word there and the word after it are the same.
  \<^item> \<open>xec_example\<close>: \<^verbatim>\<open>[0] = XEC 0x10; [0x10] = LDA 0x100; [0x11] = NOP; [0x100] = 0x42\<close>.
  \<^item> \<open>xec_halt_example\<close>: \<^verbatim>\<open>[0] = XEC 0x10\<close>, the rest zero (a zero word is HLT).
  \<^item> \<open>mpy_example\<close>: \<^verbatim>\<open>[0] = MPY 0x100; [0x100] = 3\<close> with \<^verbatim>\<open>B = SIGN_BIT | 5\<close>, the signed
    multiply of the self-test after its LDB.
\<close>

definition xec_loop :: ddp24_t where
  "xec_loop = ddp24_write (ddp24_write ddp24_init 0 0x087FFF) 0x7FFF 0x087FFF"

definition xec_chain_example :: ddp24_t where
  "xec_chain_example =
     ddp24_write (ddp24_write (ddp24_write (ddp24_write (ddp24_write ddp24_init
       0 0x080010) 0x10 0x080020) 0x11 0x080020) 0x20 0xFC0000) 0x21 0xFC0000"

definition xec_example :: ddp24_t where
  "xec_example =
     ddp24_write (ddp24_write (ddp24_write (ddp24_write ddp24_init
       0 0x080010) 0x10 0x500100) 0x11 0xFC0000) 0x100 0x42"

definition xec_halt_example :: ddp24_t where
  "xec_halt_example = ddp24_write ddp24_init 0 0x080010"

definition mpy_example :: ddp24_t where
  "mpy_example = (ddp24_write (ddp24_write ddp24_init 0 0x700100) 0x100 3)\<lparr>B := 0x800005\<rparr>"

section \<open>Basic facts\<close>

lemmas opcode_defs =
  OP_HLT_def OP_XEC_def OP_STB_def OP_STC_def OP_STA_def OP_SAA_def OP_INA_def OP_ADD_def
  OP_SUB_def OP_SKG_def OP_SKN_def OP_ANA_def OP_ORA_def OP_ERA_def OP_ADM_def OP_SBM_def
  OP_LDB_def OP_LDA_def OP_EAB_def OP_JSL_def OP_SMP_def OP_FMB_def OP_DMB_def OP_MPY_def
  OP_DIV_def OP_BCD_def OP_DCB_def OP_ARS_def OP_ALS_def OP_LRR_def OP_LLR_def OP_LRS_def
  OP_LLS_def OP_NRM_def OP_OCP_def OP_ITC_def OP_ITA_def OP_OTA_def OP_SMX_def OP_TAB_def
  OP_LDX_def OP_IAB_def OP_SKS_def OP_RND_def OP_TAX_def OP_SCR_def OP_SCL_def OP_SIX_def
  OP_RIX_def OP_JPL_def OP_JZE_def OP_JMI_def OP_JNZ_def OP_JMP_def OP_JXI_def OP_NOP_def

text \<open>Everything needed to run the model on a concrete memory image.\<close>

lemmas eval_defs =
  ddp24_init_def ddp24_write_def ddp24_read_def decode_opcode_def opcode_defs MEM_SIZE_def
  WORD_MASK_def OP_SHIFT_def OP_MASK_def ADDR_MASK_def effective_address_def
  decode_address_def decode_index_def decode_indirect_def INDEX_SHIFT_def INDEX_MASK_def
  INDIRECT_BIT_def MAGNITUDE_MASK_def SIGN_BIT_def Let_def

lemma ADDR_MASK_mask: "ADDR_MASK = mask 15"
  by (simp add: ADDR_MASK_def mask_eq_exp_minus_1)

lemma WORD_MASK_mask: "WORD_MASK = mask 24"
  by (simp add: WORD_MASK_def mask_eq_exp_minus_1)

lemma MAGNITUDE_MASK_mask: "MAGNITUDE_MASK = mask 23"
  by (simp add: MAGNITUDE_MASK_def mask_eq_exp_minus_1)

lemma SIGN_BIT_exp: "SIGN_BIT = 2 ^ 23"
  by (simp add: SIGN_BIT_def)

lemma SIGN_BIT_nonzero: "SIGN_BIT \<noteq> 0"
  by (simp add: SIGN_BIT_def)

lemma MEM_SIZE_mask: "MEM_SIZE - 1 = mask 15"
  by (simp add: MEM_SIZE_def mask_eq_exp_minus_1)

lemma ucast_MAGNITUDE_MASK: "(ucast MAGNITUDE_MASK :: 64 word) = mask 23"
  by (simp add: MAGNITUDE_MASK_def mask_eq_exp_minus_1)

subsection \<open>Unsigned values of masked and narrowed words\<close>

lemma take_bit_iff_unat: "take_bit n w = w \<longleftrightarrow> unat w < 2 ^ n" for w :: "'a::len word"
  by (simp add: word_unat_eq_iff unsigned_take_bit_eq take_bit_nat_eq_self_iff)

lemma unat_and_mask: "unat (w AND mask n) = unat w mod 2 ^ n" for w :: "'a::len word"
  by (simp add: unsigned_take_bit_eq take_bit_eq_mod [where ?'a = nat] flip: take_bit_eq_mask)

lemma magnitude_less: "unat (w AND MAGNITUDE_MASK) < 2 ^ 23"
  by (simp add: MAGNITUDE_MASK_mask unat_and_mask)

lemma unat_ucast_up: "unat (ucast (w :: word_t) :: 64 word) = unat w"
  by (simp add: unsigned_ucast_eq take_bit_nat_eq_self_iff)
     (rule less_trans [OF unsigned_less], simp)

lemma unat_ucast_down: "unat w < 2 ^ 32 \<Longrightarrow> unat (ucast (w :: 64 word) :: word_t) = unat w"
  by (simp add: unsigned_ucast_eq take_bit_nat_eq_self_iff)

text \<open>Every array access of the code is in range.\<close>

lemma mem_index_in_range: "unat (addr AND (MEM_SIZE - 1)) < unat MEM_SIZE"
  using unat_and_mask [of addr 15] by (simp add: MEM_SIZE_def mask_eq_exp_minus_1)

lemma decode_index_in_range: "unat (decode_index instr) < 4"
proof -
  have "unat (drop_bit INDEX_SHIFT instr AND INDEX_MASK) < 4"
    using unat_and_mask [of "drop_bit INDEX_SHIFT instr" 2]
    by (simp add: INDEX_MASK_def mask_eq_exp_minus_1)
  moreover have "unat (decode_index instr) \<le> unat (drop_bit INDEX_SHIFT instr AND INDEX_MASK)"
    by (simp add: decode_index_def unsigned_ucast_eq)
  ultimately show ?thesis by simp
qed

text \<open>The host \<^verbatim>\<open>int32_t\<close> of \<^verbatim>\<open>to_signed\<close> stays within 23 bits of magnitude.\<close>

lemma to_signed_range: "\<bar>to_signed w\<bar> < 2 ^ 23"
proof -
  define m where "m = uint ((w AND WORD_MASK) AND MAGNITUDE_MASK)"
  have "int (unat ((w AND WORD_MASK) AND MAGNITUDE_MASK)) < int (2 ^ 23)"
    using magnitude_less [of "w AND WORD_MASK"] by (simp only: of_nat_less_iff)
  then have "m < 2 ^ 23" by (simp add: m_def)
  moreover have "0 \<le> m" by (simp add: m_def)
  moreover have "to_signed w = m \<or> to_signed w = - m"
    by (simp add: to_signed_def Let_def m_def)
  ultimately show ?thesis by (elim disjE) simp_all
qed

subsection \<open>The program counter modulo \<open>2^15\<close>\<close>

text \<open>Undoing the fetch increment modulo \<open>2^15\<close> gives back the fetch address.\<close>

lemma int_mod_pred_succ:
  fixes p :: int
  assumes "(m::int) dvd M"
  shows "(((p + 1) mod M mod m - 1) mod M) mod m = p mod m"
proof -
  have "(((p + 1) mod M mod m - 1) mod M) mod m = ((p + 1) mod M mod m - 1) mod m"
    using assms by (rule mod_mod_cancel)
  also have "\<dots> = ((p + 1) mod m - 1) mod m"
    using assms by (simp add: mod_mod_cancel)
  also have "\<dots> = (p + 1 - 1) mod m"
    by (rule mod_diff_left_eq)
  finally show ?thesis by simp
qed

lemma take_bit_pred_succ:
  "take_bit 15 (take_bit 15 (w + 1) - 1) = take_bit 15 (w :: word_t)"
proof -
  have "uint (take_bit 15 (take_bit 15 (w + 1) - 1)) = uint (take_bit 15 w)"
    using int_mod_pred_succ [of "2 ^ 15" "2 ^ 32" "uint w"]
    by (simp add: unsigned_take_bit_eq uint_word_ariths take_bit_eq_mod [where ?'a = int])
  then show ?thesis by (rule word_uint_eqI)
qed

lemma pc_back: "(((pc + 1) AND ADDR_MASK) - 1) AND ADDR_MASK = pc AND (MEM_SIZE - 1)"
  by (simp add: ADDR_MASK_mask MEM_SIZE_mask take_bit_pred_succ flip: take_bit_eq_mask)

lemma unat_pc_succ:
  "unat ((p + 1) AND ADDR_MASK) = (unat (p AND (MEM_SIZE - 1)) + 1) mod 2 ^ 15" for p :: word_t
proof -
  have d: "(2::nat) ^ 15 dvd 2 ^ 32"
    by (rule le_imp_power_dvd) simp
  have "unat (p + 1) = (unat p + 1) mod 2 ^ 32"
    by (simp add: unat_word_ariths)
  then have "unat ((p + 1) AND ADDR_MASK) = (unat p + 1) mod 2 ^ 32 mod 2 ^ 15"
    by (simp only: ADDR_MASK_mask unat_and_mask)
  also have "\<dots> = (unat p + 1) mod 2 ^ 15"
    using d by (rule mod_mod_cancel)
  also have "\<dots> = (unat p mod 2 ^ 15 + 1) mod 2 ^ 15"
    by (simp only: mod_add_left_eq)
  finally show ?thesis
    by (simp only: MEM_SIZE_mask unat_and_mask)
qed

text \<open>Neither the effective address nor a memory read looks at the program counter.\<close>

lemma ddp24_read_PC [simp]: "ddp24_read (cpu\<lparr>PC := p\<rparr>) addr = ddp24_read cpu addr"
  by (simp add: ddp24_read_def)

lemma effective_address_PC [simp]:
  "effective_address (cpu\<lparr>PC := p\<rparr>) instr = effective_address cpu instr"
  by (simp add: effective_address_def Let_def)

subsection \<open>The three ways through \<open>ddp24_step\<close>\<close>

lemma step_halted: "halted cpu \<Longrightarrow> ddp24_step cpu = Some (0, cpu)"
  by (subst ddp24_step.simps) simp

lemma step_plain:
  assumes "\<not> halted cpu" and "decode_opcode (ddp24_read cpu (PC cpu)) \<noteq> OP_XEC"
  shows "ddp24_step cpu =
     (let instr = ddp24_read cpu (PC cpu);
          r = dispatch (decode_opcode instr) instr (effective_address cpu instr)
                (cpu\<lparr>PC := (PC cpu + 1) AND ADDR_MASK\<rparr>)
      in Some (fst r, (snd r)\<lparr>cycles := cycles (snd r) + word_of_int (fst r)\<rparr>))"
  using assms by (subst ddp24_step.simps) (simp add: Let_def split: prod.splits)

lemma step_xec:
  assumes "\<not> halted cpu" and "decode_opcode (ddp24_read cpu (PC cpu)) = OP_XEC"
  shows "ddp24_step cpu =
     (case ddp24_step
             (cpu\<lparr>PC := (effective_address cpu (ddp24_read cpu (PC cpu)) + 1) AND ADDR_MASK\<rparr>) of
        None \<Rightarrow> None
      | Some (c, cpu2) \<Rightarrow> Some (5 + c, cpu2\<lparr>cycles := cycles cpu2 + word_of_int (5 + c)\<rparr>))"
  using assms
  by (subst ddp24_step.simps) (simp add: Let_def split: prod.splits option.splits)

lemma step_xec_nested:
  assumes "\<not> halted cpu" and "decode_opcode (ddp24_read cpu (PC cpu)) = OP_XEC"
  shows "ddp24_step cpu =
     (case ddp24_step (xec_nested cpu) of
        None \<Rightarrow> None
      | Some (c, cpu2) \<Rightarrow> Some (5 + c, cpu2\<lparr>cycles := cycles cpu2 + word_of_int (5 + c)\<rparr>))"
  using assms by (simp add: step_xec xec_nested_def)

lemma dispatch_HLT:
  "dispatch OP_HLT instr ea cpu = (5, cpu\<lparr>halted := True, PC := (PC cpu - 1) AND ADDR_MASK\<rparr>)"
  by (simp add: dispatch_def)

lemma dispatch_DIV: "dispatch OP_DIV instr ea cpu = (44, op_div ea cpu)"
  by (simp add: dispatch_def opcode_defs)

lemma dispatch_MPY: "dispatch OP_MPY instr ea cpu = (28, op_mpy ea cpu)"
  by (simp add: dispatch_def opcode_defs)

lemma dispatch_default:
  "op \<notin> implemented_opcodes \<Longrightarrow> dispatch op instr ea cpu = (5, cpu\<lparr>halted := True\<rparr>)"
  by (simp add: dispatch_def implemented_opcodes_def)

lemma not_implemented_not_XEC: "op \<notin> implemented_opcodes \<Longrightarrow> op \<noteq> OP_XEC"
  by (auto simp: implemented_opcodes_def)

section \<open>The halt latch\<close>

text \<open>
  C6.  A step of a halted processor returns 0 and leaves the whole processor as it was:
  registers, memory, program counter, flags and the cycle counter.
\<close>

theorem halted_step_is_noop: "halted cpu \<Longrightarrow> ddp24_step cpu = Some (0, cpu)"
  by (subst ddp24_step.simps) simp

theorem halted_step_is_noop_witness:
  "halted (ddp24_init\<lparr>halted := True\<rparr>)
   \<and> ddp24_step (ddp24_init\<lparr>halted := True\<rparr>) = Some (0, ddp24_init\<lparr>halted := True\<rparr>)"
  using halted_step_is_noop [of "ddp24_init\<lparr>halted := True\<rparr>"] by simp

text \<open>
  C5.  On a running processor whose fetched word decodes to HLT, the step returns 5, adds 5
  to the cycle counter, latches \<open>halted\<close>, and leaves the program counter at the address
  the word was fetched from, which is \<open>PC & (MEM_SIZE - 1)\<close> as \<^verbatim>\<open>ddp24_read\<close> computes it.
  Nothing else changes.
\<close>

theorem hlt_stays_on_halt:
  assumes "\<not> halted cpu"
    and "decode_opcode (ddp24_read cpu (PC cpu)) = OP_HLT"
  shows "ddp24_step cpu =
           Some (5, cpu\<lparr>PC := PC cpu AND (MEM_SIZE - 1), halted := True,
                        cycles := cycles cpu + 5\<rparr>)"
proof -
  from assms(2) have "decode_opcode (ddp24_read cpu (PC cpu)) \<noteq> OP_XEC"
    by (simp add: OP_HLT_def OP_XEC_def)
  with assms(1) show ?thesis
    by (simp add: step_plain Let_def assms(2) dispatch_HLT pc_back)
qed

theorem hlt_stays_on_halt_witness:
  "ddp24_step ddp24_init = Some (5, ddp24_init\<lparr>halted := True, cycles := 5\<rparr>)"
  using hlt_stays_on_halt [of ddp24_init]
  by (simp add: ddp24_init_def ddp24_read_def decode_opcode_def opcode_defs MEM_SIZE_def)

section \<open>Unimplemented opcodes\<close>

text \<open>
  C9.  On a running processor whose fetched word decodes to an opcode without an arm in
  the switch, the step returns with \<open>halted\<close> latched, so that every later step is the
  no-op of a halted processor; the accumulators, the index registers, memory and the
  overflow latch are as before.  A NOP would have left \<open>halted\<close> clear.
\<close>

theorem unimplemented_opcode_faults:
  assumes "\<not> halted cpu"
    and "decode_opcode (ddp24_read cpu (PC cpu)) \<notin> implemented_opcodes"
  shows "\<exists>c cpu'. ddp24_step cpu = Some (c, cpu') \<and> halted cpu'
            \<and> ddp24_step cpu' = Some (0, cpu')
            \<and> A cpu' = A cpu \<and> B cpu' = B cpu \<and> X cpu' = X cpu
            \<and> memory cpu' = memory cpu \<and> overflow cpu' = overflow cpu"
  using assms
  by (simp add: step_plain Let_def dispatch_default step_halted not_implemented_not_XEC)

theorem unimplemented_opcode_faults_witness:
  "\<exists>c cpu'. ddp24_step (ddp24_write ddp24_init 0 0x980000) = Some (c, cpu') \<and> halted cpu'"
  using unimplemented_opcode_faults [of "ddp24_write ddp24_init 0 0x980000"]
  by (auto simp add: ddp24_init_def ddp24_write_def ddp24_read_def decode_opcode_def
      implemented_opcodes_def opcode_defs MEM_SIZE_def WORD_MASK_def OP_SHIFT_def OP_MASK_def)

text \<open>
  C10.  After such a step the program counter is \<open>(PC + 1) & ADDR_MASK\<close>, whose value is
  the fetch address plus one modulo \<open>2^15\<close> (the increment of the fetch is kept, where HLT
  takes it back); the step returns 5 and the cycle counter has grown by 5.
\<close>

theorem unimplemented_opcode_pc_and_cycles:
  assumes "\<not> halted cpu"
    and "decode_opcode (ddp24_read cpu (PC cpu)) \<notin> implemented_opcodes"
  shows "ddp24_step cpu =
           Some (5, cpu\<lparr>PC := (PC cpu + 1) AND ADDR_MASK, halted := True,
                        cycles := cycles cpu + 5\<rparr>)
         \<and> unat ((PC cpu + 1) AND ADDR_MASK)
             = (unat (PC cpu AND (MEM_SIZE - 1)) + 1) mod 2 ^ 15"
  using assms
  by (simp only: unat_pc_succ)
     (simp add: step_plain Let_def dispatch_default not_implemented_not_XEC)

theorem unimplemented_opcode_pc_and_cycles_witness:
  "ddp24_step (ddp24_write ddp24_init 0 0x980000) =
     Some (5, (ddp24_write ddp24_init 0 0x980000)\<lparr>PC := 1, halted := True, cycles := 5\<rparr>)"
  using unimplemented_opcode_pc_and_cycles [of "ddp24_write ddp24_init 0 0x980000"]
  by (simp add: ddp24_init_def ddp24_write_def ddp24_read_def decode_opcode_def
      implemented_opcodes_def opcode_defs MEM_SIZE_def WORD_MASK_def OP_SHIFT_def OP_MASK_def
      ADDR_MASK_def)

section \<open>Divide\<close>

lemma op_div_improper:
  "ddp24_read cpu ea AND MAGNITUDE_MASK \<le> A cpu AND MAGNITUDE_MASK
     \<Longrightarrow> op_div ea cpu = cpu\<lparr>overflow := True\<rparr>"
  by (simp add: op_div_def Let_def)

text \<open>
  C7.  On a running processor whose fetched word decodes to DIV, when the magnitude of the
  operand is zero or at most the magnitude of \<open>A\<close>, the step returns 44, adds 44 to the
  cycle counter, latches \<open>overflow\<close> and changes nothing else but the program counter of
  the fetch: \<open>A\<close> and \<open>B\<close> are as before, no division is made and \<open>halted\<close> stays clear.
\<close>

theorem improper_divide_is_nonfatal:
  assumes "\<not> halted cpu"
    and "decode_opcode (ddp24_read cpu (PC cpu)) = OP_DIV"
    and "ddp24_read cpu (effective_address cpu (ddp24_read cpu (PC cpu))) AND MAGNITUDE_MASK = 0
         \<or> ddp24_read cpu (effective_address cpu (ddp24_read cpu (PC cpu))) AND MAGNITUDE_MASK
              \<le> A cpu AND MAGNITUDE_MASK"
  shows "ddp24_step cpu =
           Some (44, cpu\<lparr>PC := (PC cpu + 1) AND ADDR_MASK, overflow := True,
                         cycles := cycles cpu + 44\<rparr>)"
proof -
  from assms(2) have ne: "decode_opcode (ddp24_read cpu (PC cpu)) \<noteq> OP_XEC"
    by (simp add: OP_DIV_def OP_XEC_def)
  from assms(3)
  have le: "ddp24_read cpu (effective_address cpu (ddp24_read cpu (PC cpu))) AND MAGNITUDE_MASK
              \<le> A cpu AND MAGNITUDE_MASK"
    by auto
  from assms(1) ne le show ?thesis
    by (simp add: step_plain Let_def assms(2) dispatch_DIV op_div_improper)
qed

theorem improper_divide_is_nonfatal_witness:
  "ddp24_step (ddp24_write ddp24_init 0 0x740100) =
     Some (44, (ddp24_write ddp24_init 0 0x740100)\<lparr>PC := 1, overflow := True, cycles := 44\<rparr>)"
  using improper_divide_is_nonfatal [of "ddp24_write ddp24_init 0 0x740100"]
  by (simp add: eval_defs)

section \<open>Multiply\<close>

lemma product_less:
  fixes a b :: nat
  assumes "a < 2 ^ 23" "b < 2 ^ 23"
  shows "a * b < 2 ^ 46"
proof -
  have "a * b < 2 ^ 23 * 2 ^ 23"
    using assms by (intro mult_strict_mono) simp_all
  then show ?thesis by simp
qed

lemma unat_product:
  fixes b y :: word_t
  assumes "unat b < 2 ^ 23" "unat y < 2 ^ 23"
  shows "unat ((ucast b :: 64 word) * ucast y) = unat b * unat y"
proof -
  have "unat b * unat y < 2 ^ 46" using assms by (rule product_less)
  also have "(2::nat) ^ 46 < 2 ^ 64" by simp
  finally have "unat (ucast b :: 64 word) * unat (ucast y :: 64 word) < 2 ^ LENGTH(64)"
    by (simp add: unat_ucast_up)
  then show ?thesis
    by (simp add: unat_mult_lem [THEN iffD1] unat_ucast_up)
qed

lemma mpy_high:
  fixes b y :: word_t
  assumes "unat b < 2 ^ 23" "unat y < 2 ^ 23"
  shows "unat (ucast (drop_bit 23 ((ucast b :: 64 word) * ucast y) AND ucast MAGNITUDE_MASK)
                 :: word_t)
           = unat b * unat y div 2 ^ 23"
proof -
  have p: "unat b * unat y < 2 ^ 46" using assms by (rule product_less)
  then have d: "unat b * unat y div 2 ^ 23 < 2 ^ 23"
    by (simp add: less_mult_imp_div_less)
  have "unat (drop_bit 23 ((ucast b :: 64 word) * ucast y) AND ucast MAGNITUDE_MASK)
          = unat b * unat y div 2 ^ 23"
    using d
    by (simp add: ucast_MAGNITUDE_MASK unat_and_mask unat_drop_bit_eq unat_product [OF assms]
        drop_bit_eq_div [where ?'a = nat])
  with d show ?thesis by (simp add: unat_ucast_down)
qed

lemma mpy_low:
  fixes b y :: word_t
  assumes "unat b < 2 ^ 23" "unat y < 2 ^ 23"
  shows "unat (ucast ((ucast b :: 64 word) * ucast y AND ucast MAGNITUDE_MASK) :: word_t)
           = unat b * unat y mod 2 ^ 23"
proof -
  have "unat ((ucast b :: 64 word) * ucast y AND ucast MAGNITUDE_MASK)
          = unat b * unat y mod 2 ^ 23"
    by (simp add: ucast_MAGNITUDE_MASK unat_and_mask unat_product [OF assms])
  moreover have "unat b * unat y mod 2 ^ 23 < 2 ^ 32"
    by (rule less_trans [of _ "2 ^ 23"]) simp_all
  ultimately show ?thesis by (simp add: unat_ucast_down)
qed

text \<open>A sign bit set over a magnitude, bit by bit.\<close>

lemma bit_of_fitting: "take_bit n m = m \<Longrightarrow> bit m i \<Longrightarrow> i < n" for m :: "'a::len word"
  by (metis bit_take_bit_iff)

lemma sign_or_and_mask:
  "take_bit n m = m \<Longrightarrow> (2 ^ n OR m) AND mask n = m" for m :: "'a::len word"
  by (rule bit_word_eqI) (auto simp: bit_simps dest: bit_of_fitting)

lemma fitting_and_sign:
  "take_bit n m = m \<Longrightarrow> m AND 2 ^ n = 0" for m :: "'a::len word"
  by (rule bit_word_eqI) (auto simp: bit_simps dest: bit_of_fitting)

lemma sign_or_and_sign:
  "(2 ^ n OR m) AND 2 ^ n = 2 ^ n" for m :: "'a::len word"
  by (rule bit_word_eqI) (auto simp: bit_simps)

lemma sign_or_fits:
  "take_bit n m = m \<Longrightarrow> take_bit (Suc n) (2 ^ n OR m) = 2 ^ n OR m" for m :: "'a::len word"
  by (rule bit_word_eqI) (auto simp: bit_simps dest: bit_of_fitting)

lemma take_bit_mono:
  "take_bit n m = m \<Longrightarrow> n \<le> k \<Longrightarrow> take_bit k m = m" for m :: "'a::len word"
  by (rule bit_word_eqI) (auto simp: bit_simps dest: bit_of_fitting)

text \<open>
  C8.  On a running processor whose fetched word decodes to MPY, let \<open>p\<close> be the product
  of the magnitudes of \<open>B\<close> and of the operand, as natural numbers: it is below \<open>2^46\<close>.
  The step returns 28 and leaves \<open>p div 2^23\<close> as the magnitude of \<open>A\<close> and
  \<open>p mod 2^23\<close> as the magnitude of \<open>B\<close>; the sign bit of both is set exactly when the
  operand signs differ and \<open>p\<close> is not zero; both fit in 24 bits, so that a zero product
  leaves \<open>0x000000\<close> in both.  Besides \<open>A\<close> and \<open>B\<close> only the program counter of the fetch
  and the cycle counter (by 28) change.
\<close>

theorem mpy_correct:
  assumes "\<not> halted cpu"
    and "decode_opcode (ddp24_read cpu (PC cpu)) = OP_MPY"
  shows "let y = ddp24_read cpu (effective_address cpu (ddp24_read cpu (PC cpu)));
             p = unat (B cpu AND MAGNITUDE_MASK) * unat (y AND MAGNITUDE_MASK);
             neg = ((B cpu AND SIGN_BIT \<noteq> 0) \<noteq> (y AND SIGN_BIT \<noteq> 0))
         in p < 2 ^ 46 \<and>
            (\<exists>cpu'. ddp24_step cpu = Some (28, cpu')
               \<and> unat (A cpu' AND MAGNITUDE_MASK) = p div 2 ^ 23
               \<and> unat (B cpu' AND MAGNITUDE_MASK) = p mod 2 ^ 23
               \<and> (A cpu' AND SIGN_BIT \<noteq> 0) = (neg \<and> p \<noteq> 0)
               \<and> (B cpu' AND SIGN_BIT \<noteq> 0) = (neg \<and> p \<noteq> 0)
               \<and> A cpu' AND WORD_MASK = A cpu' \<and> B cpu' AND WORD_MASK = B cpu'
               \<and> (p = 0 \<longrightarrow> A cpu' = 0 \<and> B cpu' = 0)
               \<and> cpu'\<lparr>A := A cpu, B := B cpu\<rparr>
                    = cpu\<lparr>PC := (PC cpu + 1) AND ADDR_MASK, cycles := cycles cpu + 28\<rparr>)"
proof -
  define ea where "ea = effective_address cpu (ddp24_read cpu (PC cpu))"
  define y where "y = ddp24_read cpu ea"
  define b where "b = B cpu AND MAGNITUDE_MASK"
  define ym where "ym = y AND MAGNITUDE_MASK"
  define p where "p = unat b * unat ym"
  define neg where "neg = ((B cpu AND SIGN_BIT \<noteq> 0) \<noteq> (y AND SIGN_BIT \<noteq> 0))"
  define hi :: word_t
    where "hi = ucast (drop_bit 23 ((ucast b :: 64 word) * ucast ym) AND ucast MAGNITUDE_MASK)"
  define lo :: word_t
    where "lo = ucast ((ucast b :: 64 word) * ucast ym AND ucast MAGNITUDE_MASK)"
  define s where "s = (neg \<and> (hi \<noteq> 0 \<or> lo \<noteq> 0))"
  define cpu' where "cpu' = cpu\<lparr>PC := (PC cpu + 1) AND ADDR_MASK,
      A := (if s then SIGN_BIT OR hi else hi), B := (if s then SIGN_BIT OR lo else lo),
      cycles := cycles cpu + 28\<rparr>"
  have ub: "unat b < 2 ^ 23" and uy: "unat ym < 2 ^ 23"
    unfolding b_def ym_def by (rule magnitude_less)+
  have p46: "p < 2 ^ 46"
    unfolding p_def using ub uy by (rule product_less)
  have hi: "unat hi = p div 2 ^ 23"
    unfolding hi_def p_def using ub uy by (rule mpy_high)
  have lo: "unat lo = p mod 2 ^ 23"
    unfolding lo_def p_def using ub uy by (rule mpy_low)
  have "(hi = 0 \<and> lo = 0) \<longleftrightarrow> (p div 2 ^ 23 = 0 \<and> p mod 2 ^ 23 = 0)"
    unfolding hi [symmetric] lo [symmetric] by (simp add: unsigned_eq_0_iff)
  also have "\<dots> \<longleftrightarrow> p = 0"
    using div_mult_mod_eq [of p "2 ^ 23"] by auto
  finally have s: "s \<longleftrightarrow> neg \<and> p \<noteq> 0"
    unfolding s_def by auto
  have "p div 2 ^ 23 < 2 ^ 23"
    using p46 by (simp add: less_mult_imp_div_less)
  then have fh: "take_bit 23 hi = hi"
    by (simp add: take_bit_iff_unat hi)
  have fl: "take_bit 23 lo = lo"
    by (simp add: take_bit_iff_unat lo)
  from assms(2) have ne: "decode_opcode (ddp24_read cpu (PC cpu)) \<noteq> OP_XEC"
    by (simp add: OP_MPY_def OP_XEC_def)
  have mpy: "op_mpy ea (cpu\<lparr>PC := (PC cpu + 1) AND ADDR_MASK\<rparr>)
               = cpu\<lparr>PC := (PC cpu + 1) AND ADDR_MASK,
                     A := (if s then SIGN_BIT OR hi else hi),
                     B := (if s then SIGN_BIT OR lo else lo)\<rparr>"
    by (simp add: op_mpy_def Let_def s_def hi_def lo_def b_def ym_def y_def neg_def)
  have step: "ddp24_step cpu = Some (28, cpu')"
    using assms(1) ne
    by (simp add: step_plain Let_def assms(2) dispatch_MPY mpy cpu'_def flip: ea_def)
  have mag: "(SIGN_BIT OR m) AND MAGNITUDE_MASK = m" "m AND MAGNITUDE_MASK = m"
       "m AND SIGN_BIT = 0" "(SIGN_BIT OR m) AND SIGN_BIT = SIGN_BIT"
       "(SIGN_BIT OR m) AND WORD_MASK = SIGN_BIT OR m" "m AND WORD_MASK = m"
    if "take_bit 23 m = m" for m :: word_t
    using that sign_or_and_mask [of 23 m] fitting_and_sign [of 23 m] sign_or_and_sign [of 23 m]
      sign_or_fits [of 23 m] take_bit_mono [of 23 m 24]
    by (simp_all add: SIGN_BIT_exp MAGNITUDE_MASK_mask WORD_MASK_mask flip: take_bit_eq_mask)
  have r: "unat (A cpu' AND MAGNITUDE_MASK) = p div 2 ^ 23
         \<and> unat (B cpu' AND MAGNITUDE_MASK) = p mod 2 ^ 23
         \<and> (A cpu' AND SIGN_BIT \<noteq> 0) = (neg \<and> p \<noteq> 0)
         \<and> (B cpu' AND SIGN_BIT \<noteq> 0) = (neg \<and> p \<noteq> 0)
         \<and> A cpu' AND WORD_MASK = A cpu' \<and> B cpu' AND WORD_MASK = B cpu'"
    using s by (simp add: cpu'_def mag [OF fh] mag [OF fl] hi lo SIGN_BIT_nonzero)
  have z: "p = 0 \<longrightarrow> A cpu' = 0 \<and> B cpu' = 0"
    using s hi lo by (auto simp add: cpu'_def unsigned_eq_0_iff)
  have u: "cpu'\<lparr>A := A cpu, B := B cpu\<rparr>
             = cpu\<lparr>PC := (PC cpu + 1) AND ADDR_MASK, cycles := cycles cpu + 28\<rparr>"
    by (simp add: cpu'_def)
  have "p < 2 ^ 46 \<and>
        (\<exists>cpu'. ddp24_step cpu = Some (28, cpu')
           \<and> unat (A cpu' AND MAGNITUDE_MASK) = p div 2 ^ 23
           \<and> unat (B cpu' AND MAGNITUDE_MASK) = p mod 2 ^ 23
           \<and> (A cpu' AND SIGN_BIT \<noteq> 0) = (neg \<and> p \<noteq> 0)
           \<and> (B cpu' AND SIGN_BIT \<noteq> 0) = (neg \<and> p \<noteq> 0)
           \<and> A cpu' AND WORD_MASK = A cpu' \<and> B cpu' AND WORD_MASK = B cpu'
           \<and> (p = 0 \<longrightarrow> A cpu' = 0 \<and> B cpu' = 0)
           \<and> cpu'\<lparr>A := A cpu, B := B cpu\<rparr>
                = cpu\<lparr>PC := (PC cpu + 1) AND ADDR_MASK, cycles := cycles cpu + 28\<rparr>)"
    using p46 step r z u by (intro conjI exI [of _ cpu']) (simp_all only:)
  then show ?thesis
    unfolding Let_def p_def b_def ym_def y_def ea_def neg_def .
qed

theorem mpy_correct_witness:
  "\<exists>cpu'. ddp24_step mpy_example = Some (28, cpu')
      \<and> unat (A cpu' AND MAGNITUDE_MASK) = 0 \<and> unat (B cpu' AND MAGNITUDE_MASK) = 15
      \<and> A cpu' AND SIGN_BIT \<noteq> 0 \<and> B cpu' AND SIGN_BIT \<noteq> 0"
  using mpy_correct [of mpy_example]
  by (simp add: mpy_example_def eval_defs) blast

text \<open>The same step, run: the signed multiply of the self-test, \<open>-5 * 3\<close>.\<close>

lemma mpy_signed_scenario:
  "ddp24_step mpy_example
     = Some (28, mpy_example\<lparr>PC := 1, A := 0x800000, B := 0x80000F, cycles := 28\<rparr>)"
  by (subst step_plain) (simp_all add: mpy_example_def eval_defs dispatch_def op_mpy_def)

section \<open>Machine widths\<close>

subsection \<open>Words that fit\<close>

lemma fits_iff_take_bit: "fits n w \<longleftrightarrow> take_bit n w = w"
  by (simp add: fits_def take_bit_iff_unat)

lemma fits_iff_bits: "fits n w \<longleftrightarrow> (\<forall>i. bit w i \<longrightarrow> i < n)"
proof
  assume "fits n w"
  then show "\<forall>i. bit w i \<longrightarrow> i < n"
    by (auto simp: fits_iff_take_bit dest: bit_of_fitting)
next
  assume "\<forall>i. bit w i \<longrightarrow> i < n"
  then have "take_bit n w = w"
    by (intro bit_word_eqI) (auto simp: bit_simps)
  then show "fits n w" by (simp add: fits_iff_take_bit)
qed

lemma fits_0 [simp]: "fits n 0"
  by (simp add: fits_def)

lemma fits_mask [simp]: "fits n (w AND mask n)" "fits n (mask n AND w)"
  by (simp_all add: fits_iff_bits bit_simps)

lemma fits_WORD_MASK [simp]: "fits 24 (w AND WORD_MASK)"
  by (simp add: WORD_MASK_mask)

lemma fits_ADDR_MASK [simp]: "fits 15 (w AND ADDR_MASK)"
  by (simp add: ADDR_MASK_mask)

lemma fits_MAGNITUDE_MASK [simp]: "fits 23 (w AND MAGNITUDE_MASK)"
  by (simp add: MAGNITUDE_MASK_mask)

lemma fits_mono: "fits n w \<Longrightarrow> n \<le> k \<Longrightarrow> fits k w"
  by (auto simp add: fits_iff_bits)

lemma fits_magnitude_24 [simp]: "fits 24 (w AND MAGNITUDE_MASK)"
  by (rule fits_mono [of 23]) simp_all

lemma fits_and: "fits n a \<or> fits n b \<Longrightarrow> fits n (a AND b)"
  by (auto simp add: fits_iff_bits bit_simps)

lemma fits_or: "fits n a \<Longrightarrow> fits n b \<Longrightarrow> fits n (a OR b)"
  by (auto simp add: fits_iff_bits bit_simps)

lemma fits_drop_bit: "fits n a \<Longrightarrow> fits n (drop_bit k a)"
  by (fastforce simp add: fits_iff_bits bit_simps)

lemma fits_exp: "fits (Suc n) (2 ^ n)"
  by (auto simp add: fits_iff_bits bit_simps)

lemma fits_SIGN_BIT [simp]: "fits 24 SIGN_BIT"
  using fits_exp [of 23] by (simp add: SIGN_BIT_def)

lemma fits_and_SIGN_BIT [simp]: "fits 24 (w AND SIGN_BIT)"
  by (simp add: fits_and)

lemma fits_sign_or: "fits 23 m \<Longrightarrow> fits 24 (SIGN_BIT OR m)"
  by (simp add: fits_or fits_mono [of 23 m 24])

lemma fits_ucast: "unat (w :: 64 word) < 2 ^ n \<Longrightarrow> fits n (ucast w)"
proof -
  assume a: "unat w < 2 ^ n"
  have "unat (ucast w :: word_t) \<le> unat w"
    by (simp add: unsigned_ucast_eq)
  with a show ?thesis by (simp add: fits_def)
qed

lemma fits_read [simp]: "fits 24 (ddp24_read cpu addr)"
  by (simp add: ddp24_read_def)

lemma fits_effective_address [simp]: "fits 15 (effective_address cpu instr)"
  by (simp add: effective_address_def Let_def decode_address_def)

lemma fits_from_signed [simp]: "fits 24 (from_signed v)"
  by (simp add: from_signed_def fits_sign_or fits_mono [of 23 _ 24])

subsection \<open>The multiply and divide arms\<close>

lemma fits_mpy_parts:
  "fits 23 (ucast (w AND ucast MAGNITUDE_MASK :: 64 word))"
  by (rule fits_ucast) (simp add: ucast_MAGNITUDE_MASK unat_and_mask)

lemma op_mpy_fits: "fits 24 (A (op_mpy ea cpu))" "fits 24 (B (op_mpy ea cpu))"
  by (simp_all add: op_mpy_def Let_def fits_sign_or fits_mpy_parts fits_mono [of 23 _ 24])

lemma op_mpy_other [simp]:
  "PC (op_mpy ea cpu) = PC cpu" "X (op_mpy ea cpu) = X cpu"
  "memory (op_mpy ea cpu) = memory cpu"
  by (simp_all add: op_mpy_def Let_def)

lemma op_div_other [simp]:
  "PC (op_div ea cpu) = PC cpu" "X (op_div ea cpu) = X cpu"
  "memory (op_div ea cpu) = memory cpu"
  by (simp_all add: op_div_def Let_def)

text \<open>
  The dividend \<^verbatim>\<open>((uint64_t)a_mag << 23) | b_mag\<close> is \<open>a_mag * 2^23 + b_mag\<close>, and with
  \<open>a_mag\<close> below the divisor the quotient stays below \<open>2^23\<close>: the narrowing to
  \<^verbatim>\<open>uint32_t\<close> loses nothing and the sign bit set over it does not collide.
\<close>

lemma nat_push_bit_or:
  fixes a b :: nat
  assumes "b < 2 ^ n"
  shows "push_bit n a OR b = a * 2 ^ n + b"
proof -
  from assms have t: "take_bit n b = b" by (simp add: take_bit_nat_eq_self_iff)
  have "push_bit n a + b = push_bit n a OR b"
  proof (rule disjunctive_add)
    fix i
    show "\<not> bit (push_bit n a) i \<or> \<not> bit b i"
      using bit_take_bit_iff [of n b i] by (auto simp: t bit_simps)
  qed
  then show ?thesis by (simp add: push_bit_eq_mult)
qed

lemma unat_dividend:
  fixes a b :: word_t
  assumes "unat a < 2 ^ 23" "unat b < 2 ^ 23"
  shows "unat (push_bit 23 (ucast a :: 64 word) OR ucast b) = unat a * 2 ^ 23 + unat b"
proof -
  have "unat a * 2 ^ 23 < 2 ^ 23 * 2 ^ 23"
    using assms(1) by simp
  then have "push_bit 23 (unat a) < 2 ^ 64"
    by (simp add: push_bit_eq_mult)
  then have "unat (push_bit 23 (ucast a :: 64 word)) = push_bit 23 (unat a)"
    by (simp add: unsigned_push_bit_eq unat_ucast_up take_bit_nat_eq_self_iff)
  then show ?thesis
    using nat_push_bit_or [OF assms(2), of "unat a"]
    by (simp add: unsigned_or_eq unat_ucast_up)
qed

lemma quotient_less:
  fixes a b d :: nat
  assumes "a < d" "b < 2 ^ n"
  shows "(a * 2 ^ n + b) div d < 2 ^ n"
proof -
  have "a * 2 ^ n + b < (a + 1) * 2 ^ n"
    using assms(2) by (simp add: algebra_simps)
  also have "\<dots> \<le> d * 2 ^ n"
    using assms(1) by (intro mult_right_mono) simp_all
  finally have "a * 2 ^ n + b < 2 ^ n * d" by (simp add: mult.commute)
  then show ?thesis
    by (simp add: less_mult_imp_div_less)
qed

lemma div_parts:
  fixes a b d :: word_t
  assumes "unat a < 2 ^ 23" "unat b < 2 ^ 23" "unat a < unat d" "unat d < 2 ^ 23"
  shows "fits 23 (ucast ((push_bit 23 (ucast a :: 64 word) OR ucast b) div ucast d))"
    and "fits 23 (ucast ((push_bit 23 (ucast a :: 64 word) OR ucast b) mod ucast d))"
proof -
  let ?n = "push_bit 23 (ucast a :: 64 word) OR ucast b"
  have n: "unat ?n = unat a * 2 ^ 23 + unat b"
    using assms(1,2) by (rule unat_dividend)
  have "unat (?n div ucast d) = (unat a * 2 ^ 23 + unat b) div unat d"
    by (simp add: unat_div n unat_ucast_up)
  also have "\<dots> < 2 ^ 23"
    using assms(3,2) by (rule quotient_less)
  finally show "fits 23 (ucast (?n div ucast d))"
    by (rule fits_ucast)
  have "unat (?n mod ucast d) = (unat a * 2 ^ 23 + unat b) mod unat d"
    by (simp add: unat_mod n unat_ucast_up)
  also have "\<dots> < unat d"
    using assms(3) by simp
  also note assms(4)
  finally show "fits 23 (ucast (?n mod ucast d))"
    by (rule fits_ucast)
qed

lemma op_div_fits:
  assumes "fits 24 (A cpu)" "fits 24 (B cpu)"
  shows "fits 24 (A (op_div ea cpu))" "fits 24 (B (op_div ea cpu))"
proof -
  let ?d = "ddp24_read cpu ea AND MAGNITUDE_MASK"
  let ?a = "A cpu AND MAGNITUDE_MASK"
  let ?b = "B cpu AND MAGNITUDE_MASK"
  have l: "unat ?a < 2 ^ 23" "unat ?b < 2 ^ 23" "unat ?d < 2 ^ 23"
    by (rule magnitude_less)+
  show "fits 24 (A (op_div ea cpu))"
  proof (cases "?d \<le> ?a")
    case True
    with assms show ?thesis by (simp add: op_div_def Let_def)
  next
    case False
    then have "unat ?a < unat ?d" by (simp add: word_le_nat_alt)
    from div_parts(2) [OF l(1,2) this l(3)] False show ?thesis
      by (simp add: op_div_def Let_def fits_sign_or fits_mono [of 23 _ 24])
  qed
  show "fits 24 (B (op_div ea cpu))"
  proof (cases "?d \<le> ?a")
    case True
    with assms show ?thesis by (simp add: op_div_def Let_def)
  next
    case False
    then have "unat ?a < unat ?d" by (simp add: word_le_nat_alt)
    from div_parts(1) [OF l(1,2) this l(3)] False show ?thesis
      by (simp add: op_div_def Let_def fits_sign_or fits_mono [of 23 _ 24])
  qed
qed

subsection \<open>Every arm of the switch keeps the widths\<close>

lemma write_memory_fits:
  "\<forall>i < unat MEM_SIZE. fits 24 (memory cpu i)
     \<Longrightarrow> \<forall>i < unat MEM_SIZE. fits 24 (memory (ddp24_write cpu addr v) i)"
  by (simp add: ddp24_write_def)

lemma write_other [simp]:
  "A (ddp24_write cpu addr v) = A cpu" "B (ddp24_write cpu addr v) = B cpu"
  "X (ddp24_write cpu addr v) = X cpu" "PC (ddp24_write cpu addr v) = PC cpu"
  by (simp_all add: ddp24_write_def)

text \<open>The chain of tests in \<open>dispatch\<close> is taken apart from the outside, one arm at a time.\<close>

lemma if_snd_cases:
  "(c \<Longrightarrow> Q (snd a)) \<Longrightarrow> (\<not> c \<Longrightarrow> Q (snd b)) \<Longrightarrow> Q (snd (if c then a else b))"
  by simp

lemma dispatch_A:
  "fits 24 (A cpu) \<Longrightarrow> fits 24 (B cpu) \<Longrightarrow> fits 24 (A (snd (dispatch op instr ea cpu)))"
  unfolding dispatch_def Let_def
  by (intro if_snd_cases [where Q = "\<lambda>s. fits 24 (A s)"])
     (simp_all add: op_mpy_fits op_div_fits fits_or fits_and fits_drop_bit)

lemma dispatch_B:
  "fits 24 (A cpu) \<Longrightarrow> fits 24 (B cpu) \<Longrightarrow> fits 24 (B (snd (dispatch op instr ea cpu)))"
  unfolding dispatch_def Let_def
  by (intro if_snd_cases [where Q = "\<lambda>s. fits 24 (B s)"])
     (simp_all add: op_mpy_fits op_div_fits)

lemma dispatch_PC:
  "fits 15 (PC cpu) \<Longrightarrow> fits 15 ea \<Longrightarrow> fits 15 (PC (snd (dispatch op instr ea cpu)))"
  unfolding dispatch_def Let_def
  by (intro if_snd_cases [where Q = "\<lambda>s. fits 15 (PC s)"]) simp_all

lemma dispatch_memory:
  "\<forall>i < unat MEM_SIZE. fits 24 (memory cpu i)
     \<Longrightarrow> \<forall>i < unat MEM_SIZE. fits 24 (memory (snd (dispatch op instr ea cpu)) i)"
  unfolding dispatch_def Let_def
  by (intro if_snd_cases [where Q = "\<lambda>s. \<forall>i < unat MEM_SIZE. fits 24 (memory s i)"])
     (simp_all add: write_memory_fits)

lemma dispatch_X0:
  "X (snd (dispatch op instr ea cpu)) 0 = X cpu 0"
  unfolding dispatch_def Let_def
  by (intro if_snd_cases [where Q = "\<lambda>s. X s 0 = X cpu 0"])
     (simp_all add: unsigned_eq_0_iff word_greater_zero_iff)

lemma dispatch_X:
  "fits 15 (X cpu i) \<Longrightarrow> fits 15 (X (snd (dispatch op instr ea cpu)) i)"
  unfolding dispatch_def Let_def
  by (intro if_snd_cases [where Q = "\<lambda>s. fits 15 (X s i)"]) simp_all

lemma dispatch_invariant:
  assumes "width_invariant cpu" "fits 15 ea"
  shows "width_invariant (snd (dispatch op instr ea cpu))"
  using assms unfolding width_invariant_def
  by (simp add: dispatch_A dispatch_B dispatch_PC dispatch_memory dispatch_X0 dispatch_X)

lemma cycles_update_invariant [simp]:
  "width_invariant (cpu\<lparr>cycles := c\<rparr>) = width_invariant cpu"
  by (simp add: width_invariant_def)

lemma PC_update_invariant:
  "width_invariant cpu \<Longrightarrow> fits 15 p \<Longrightarrow> width_invariant (cpu\<lparr>PC := p\<rparr>)"
  by (simp add: width_invariant_def)

subsection \<open>Every step that returns keeps the widths\<close>

lemma step_invariant:
  "ddp24_step cpu = Some r \<Longrightarrow> width_invariant cpu \<longrightarrow> width_invariant (snd r)"
proof (induction cpu r rule: ddp24_step.raw_induct [rotated -1, consumes 1, case_names body])
  case (body f cpu r)
  show ?case
  proof
    assume inv: "width_invariant cpu"
    let ?instr = "ddp24_read cpu (PC cpu)"
    let ?cpu1 = "cpu\<lparr>PC := (PC cpu + 1) AND ADDR_MASK\<rparr>"
    let ?ea = "effective_address cpu ?instr"
    have inv1: "width_invariant ?cpu1"
      using inv by (simp add: PC_update_invariant)
    show "width_invariant (snd r)"
    proof (cases "halted cpu")
      case True
      with body(2) inv show ?thesis by auto
    next
      case False
      show ?thesis
      proof (cases "decode_opcode ?instr = OP_XEC")
        case True
        with False body(2) obtain c cpu2
          where f: "f (?cpu1\<lparr>PC := (?ea + 1) AND ADDR_MASK\<rparr>) = Some (c, cpu2)"
            and r: "r = (5 + c, cpu2\<lparr>cycles := cycles cpu2 + word_of_int (5 + c)\<rparr>)"
          by (auto simp add: Let_def split: if_splits bind_splits)
        have "width_invariant (?cpu1\<lparr>PC := (?ea + 1) AND ADDR_MASK\<rparr>)"
          using inv1 by (rule PC_update_invariant) simp
        with body(1) [OF f] have "width_invariant (snd (c, cpu2))" by (rule mp)
        with r show ?thesis by simp
      next
        case ne: False
        with False body(2)
        have "snd r = (snd (dispatch (decode_opcode ?instr) ?instr ?ea ?cpu1))
                        \<lparr>cycles := cycles (snd r)\<rparr>"
          by (auto simp add: Let_def split: prod.splits)
        moreover have "width_invariant (snd (dispatch (decode_opcode ?instr) ?instr ?ea ?cpu1))"
          using inv1 by (rule dispatch_invariant) simp
        ultimately show ?thesis
          by (metis cycles_update_invariant)
      qed
    qed
  qed
qed

text \<open>
  C1.  Every processor reached from \<^verbatim>\<open>ddp24_init\<close> by resets, writes and steps that return
  has \<open>A\<close>, \<open>B\<close> and every memory word within 24 bits, \<open>PC\<close>, \<open>X[1]\<close>, \<open>X[2]\<close>, \<open>X[3]\<close>
  within 15 bits and \<open>X[0]\<close> zero; and whatever \<^verbatim>\<open>ddp24_read\<close> returns on it is within 24
  bits.
\<close>

theorem machine_width_invariant:
  assumes "reachable cpu"
  shows "width_invariant cpu \<and> (\<forall>addr. fits 24 (ddp24_read cpu addr))"
proof -
  from assms have "width_invariant cpu"
  proof induction
    case reach_init
    show ?case by (simp add: width_invariant_def ddp24_init_def)
  next
    case (reach_reset cpu)
    then show ?case by (simp add: width_invariant_def ddp24_reset_def)
  next
    case (reach_write cpu addr v)
    then show ?case by (simp add: width_invariant_def write_memory_fits)
  next
    case (reach_step cpu c cpu')
    from step_invariant [OF reach_step(2)] reach_step(3) show ?case by simp
  qed
  then show ?thesis by simp
qed

theorem machine_width_invariant_witness:
  "reachable (ddp24_write ddp24_init 0xFFFFFFFF 0xFFFFFFFF)
   \<and> width_invariant (ddp24_write ddp24_init 0xFFFFFFFF 0xFFFFFFFF)"
  using machine_width_invariant [OF reach_write [OF reach_init, of "0xFFFFFFFF" "0xFFFFFFFF"]]
    reach_write [OF reach_init, of "0xFFFFFFFF" "0xFFFFFFFF"]
  by simp

section \<open>XEC\<close>

subsection \<open>When a step returns\<close>

lemma chain_imp_step_returns:
  "xec_chain_ends n cpu \<Longrightarrow> \<exists>r. ddp24_step cpu = Some r"
proof (induction n arbitrary: cpu)
  case 0
  then show ?case
    by (cases "halted cpu") (auto simp add: step_halted step_plain Let_def)
next
  case (Suc n)
  show ?case
  proof (cases "halted cpu \<or> decode_opcode (ddp24_read cpu (PC cpu)) \<noteq> OP_XEC")
    case True
    then show ?thesis
      by (cases "halted cpu") (auto simp add: step_halted step_plain Let_def)
  next
    case False
    with Suc.prems have "xec_chain_ends n (xec_nested cpu)"
      by simp
    from Suc.IH [OF this] False show ?thesis
      by (auto simp add: step_xec_nested)
  qed
qed

lemma step_returns_imp_chain:
  "ddp24_step cpu = Some r \<Longrightarrow> \<exists>n. xec_chain_ends n cpu"
proof (induction cpu r rule: ddp24_step.raw_induct [rotated -1, consumes 1, case_names body])
  case (body f cpu r)
  show ?case
  proof (cases "halted cpu \<or> decode_opcode (ddp24_read cpu (PC cpu)) \<noteq> OP_XEC")
    case True
    then have "xec_chain_ends 0 cpu" by simp
    then show ?thesis ..
  next
    case False
    with body(2) obtain y where "f (xec_nested cpu) = Some y"
      by (auto simp add: Let_def xec_nested_def split: bind_splits)
    from body(1) [OF this] obtain n where "xec_chain_ends n (xec_nested cpu)"
      ..
    then have "xec_chain_ends (Suc n) cpu" by simp
    then show ?thesis ..
  qed
qed

text \<open>
  C3, as the code has it.  Nothing bounds the nesting of XEC and nothing halts the
  processor on depth.  A step returns exactly when the chain of nested calls it goes down
  ends after finitely many of them, at a halted processor or at a word that is not XEC;
  in particular it returns whenever the fetched word is not XEC.  The statement follows
  the nested calls of the code whichever word each of them fetches (that is the matter of
  C2).
\<close>

theorem step_returns_iff_xec_chain_ends:
  "(\<exists>r. ddp24_step cpu = Some r) \<longleftrightarrow> (\<exists>n. xec_chain_ends n cpu)"
  using chain_imp_step_returns step_returns_imp_chain by blast

text \<open>
  A chain of two XEC words that returns: on \<open>xec_chain_example\<close> neither the outer call
  nor the first nested call ends the chain, the second nested call does.
\<close>

lemma xec_chain_example_facts:
  "\<not> halted xec_chain_example"
  "decode_opcode (ddp24_read xec_chain_example (PC xec_chain_example)) = OP_XEC"
  "xec_nested xec_chain_example = xec_chain_example\<lparr>PC := 0x11\<rparr>"
  "decode_opcode (ddp24_read xec_chain_example 0x11) = OP_XEC"
  "xec_nested (xec_chain_example\<lparr>PC := 0x11\<rparr>) = xec_chain_example\<lparr>PC := 0x21\<rparr>"
  "decode_opcode (ddp24_read xec_chain_example 0x21) \<noteq> OP_XEC"
  by (simp_all add: xec_chain_example_def xec_nested_def eval_defs)

theorem step_returns_iff_xec_chain_ends_witness:
  "\<not> xec_chain_ends 1 xec_chain_example \<and> xec_chain_ends 2 xec_chain_example
   \<and> (\<exists>r. ddp24_step xec_chain_example = Some r)"
proof -
  have n: "\<not> xec_chain_ends (Suc 0) xec_chain_example"
    by (simp add: xec_chain_example_facts)
  have y: "xec_chain_ends (Suc (Suc 0)) xec_chain_example"
    by (simp add: xec_chain_example_facts)
  from y step_returns_iff_xec_chain_ends [of xec_chain_example]
  have "\<exists>r. ddp24_step xec_chain_example = Some r" by blast
  with n y show ?thesis by (simp add: numeral_2_eq_2)
qed

text \<open>
  A self-referential chain.  On \<open>xec_loop\<close> the word at 0 and the word at \<^verbatim>\<open>0x7FFF\<close> are the
  same \<^verbatim>\<open>XEC 0x7FFF\<close>: the word at the effective address is again this XEC, and so is the
  word after it, at address 0.  Whichever of the two an XEC is taken to run, the chain
  comes back to an XEC with the same effective address.
\<close>

lemma xec_loop_words:
  "decode_opcode (ddp24_read xec_loop 0) = OP_XEC"
  "effective_address xec_loop (ddp24_read xec_loop 0) = 0x7FFF"
  "decode_opcode (ddp24_read xec_loop 0x7FFF) = OP_XEC"
  "effective_address xec_loop (ddp24_read xec_loop 0x7FFF) = 0x7FFF"
  "(0x7FFF + 1) AND ADDR_MASK = 0"
  by (simp_all add: xec_loop_def eval_defs)

text \<open>In the code the nested call starts from the very processor the outer call started from.\<close>

lemma xec_loop_facts:
  "\<not> halted xec_loop" "decode_opcode (ddp24_read xec_loop (PC xec_loop)) = OP_XEC"
  "xec_nested xec_loop = xec_loop"
  by (simp_all add: xec_loop_def xec_nested_def eval_defs)

lemma xec_loop_never_ends: "\<not> xec_chain_ends n xec_loop"
  by (induction n) (simp_all add: xec_loop_facts)

text \<open>C3, as stated, fails there: the step on \<open>xec_loop\<close> does not return.\<close>

theorem xec_self_reference_never_returns: "ddp24_step xec_loop = None"
proof (cases "ddp24_step xec_loop")
  case None
  then show ?thesis .
next
  case (Some r)
  then obtain n where "xec_chain_ends n xec_loop"
    using step_returns_imp_chain by blast
  with xec_loop_never_ends show ?thesis by blast
qed

subsection \<open>Which word an XEC runs, and what it counts\<close>

text \<open>
  C2.  The step on \<open>xec_example\<close> (\<^verbatim>\<open>XEC 0x10\<close> at 0, \<^verbatim>\<open>LDA 0x100\<close> at \<^verbatim>\<open>0x10\<close>, \<^verbatim>\<open>NOP\<close> at
  \<^verbatim>\<open>0x11\<close>) runs the word at \<^verbatim>\<open>0x11\<close>, the one after the effective address: \<open>A\<close> stays 0
  and \<open>PC\<close> ends at \<^verbatim>\<open>0x12\<close>.  Fetching the word at \<^verbatim>\<open>0x10\<close> itself, with \<open>PC\<close> moved on to
  \<^verbatim>\<open>0x11\<close>, loads \<^verbatim>\<open>0x42\<close> into \<open>A\<close> and leaves \<open>PC\<close> at \<^verbatim>\<open>0x11\<close>.
\<close>

theorem xec_executes_word_after_target:
  "ddp24_step xec_example = Some (10, xec_example\<lparr>PC := 0x12, cycles := 15\<rparr>)
   \<and> ddp24_step (xec_example\<lparr>PC := 0x10\<rparr>)
        = Some (10, xec_example\<lparr>PC := 0x11, A := 0x42, cycles := 10\<rparr>)"
proof -
  have inner: "ddp24_step (xec_example\<lparr>PC := 0x11\<rparr>)
                 = Some (5, xec_example\<lparr>PC := 0x12, cycles := 5\<rparr>)"
    by (subst step_plain) (simp_all add: xec_example_def eval_defs dispatch_def)
  have "ddp24_step xec_example = Some (10, xec_example\<lparr>PC := 0x12, cycles := 15\<rparr>)"
  proof -
    have "\<not> halted xec_example"
      and "decode_opcode (ddp24_read xec_example (PC xec_example)) = OP_XEC"
      and "xec_example\<lparr>PC := (effective_address xec_example
               (ddp24_read xec_example (PC xec_example)) + 1) AND ADDR_MASK\<rparr>
             = xec_example\<lparr>PC := 0x11\<rparr>"
      by (simp_all add: xec_example_def eval_defs)
    then show ?thesis
      by (simp add: step_xec inner)
  qed
  moreover have "ddp24_step (xec_example\<lparr>PC := 0x10\<rparr>)
        = Some (10, xec_example\<lparr>PC := 0x11, A := 0x42, cycles := 10\<rparr>)"
    by (subst step_plain) (simp_all add: xec_example_def eval_defs dispatch_def)
  ultimately show ?thesis by simp
qed

text \<open>
  Outside XEC the two agree: no arm of the switch touches the cycle counter, so a step on
  a word that is not XEC adds to it exactly what it returns.
\<close>

lemma dispatch_cycles: "cycles (snd (dispatch op instr ea cpu)) = cycles cpu"
  unfolding dispatch_def Let_def
  by (intro if_snd_cases [where Q = "\<lambda>s. cycles s = cycles cpu"])
     (simp_all add: op_mpy_def op_div_def ddp24_write_def Let_def)

lemma plain_step_cycles:
  assumes "\<not> halted cpu" and "decode_opcode (ddp24_read cpu (PC cpu)) \<noteq> OP_XEC"
    and "ddp24_step cpu = Some (c, cpu')"
  shows "cycles cpu' = cycles cpu + word_of_int c"
  using assms by (auto simp add: step_plain Let_def dispatch_cycles)

text \<open>
  C4.  The step on \<open>xec_halt_example\<close> (\<^verbatim>\<open>XEC 0x10\<close> at 0, zero elsewhere, so an HLT at
  \<^verbatim>\<open>0x11\<close>) returns 10 while the cycle counter goes from 0 to 15: the nested call has added
  its 5 before the outer call adds its 10.
\<close>

theorem xec_counts_nested_cycles_twice:
  "ddp24_step xec_halt_example
     = Some (10, xec_halt_example\<lparr>PC := 0x11, halted := True, cycles := 15\<rparr>)"
proof -
  have inner: "ddp24_step (xec_halt_example\<lparr>PC := 0x11\<rparr>)
                 = Some (5, xec_halt_example\<lparr>PC := 0x11, halted := True, cycles := 5\<rparr>)"
    by (subst step_plain) (simp_all add: xec_halt_example_def eval_defs dispatch_def)
  have "\<not> halted xec_halt_example"
    and "decode_opcode (ddp24_read xec_halt_example (PC xec_halt_example)) = OP_XEC"
    and "xec_halt_example\<lparr>PC := (effective_address xec_halt_example
             (ddp24_read xec_halt_example (PC xec_halt_example)) + 1) AND ADDR_MASK\<rparr>
           = xec_halt_example\<lparr>PC := 0x11\<rparr>"
    by (simp_all add: xec_halt_example_def eval_defs)
  then show ?thesis
    by (simp add: step_xec inner)
qed

end
